theory Spec2Isabelle
  imports Main "HOL-Library.AList"
begin

section \<open>Data model of the exam screen\<close>

text \<open>
  The records follow the TypeScript interfaces of the exam-taking component
  (\<^verbatim>\<open>Question\<close>, \<^verbatim>\<open>Answer\<close>) and the rows the component writes through the database
  client (\<^verbatim>\<open>responses\<close>, \<^verbatim>\<open>submissions\<close>). Instants are integers counting milliseconds,
  the value of \<^verbatim>\<open>Date.getTime()\<close>; JavaScript strings are modelled as \<open>string\<close>, and a
  nullable string as \<open>string option\<close>.
\<close>

datatype ExamPhase = access | registration | examPhase | completed

record Exam =
  id_exam :: string
  name_exam :: string
  topic :: string
  accessCode :: string
  startTime :: int
  endTime :: int
  status_exam :: string

record Question =
  id_question :: string
  examId :: string
  questionText :: string
  optionA :: string
  optionB :: string
  optionC :: string
  optionD :: string
  correctAnswer :: string
  topicTag :: string
  questionOrder :: int

datatype answer_status = answered | not_answered | marked_for_review

record Answer =
  questionId :: string
  selectedAnswer :: string
  status :: answer_status
  timeSpent :: int

record Response =
  selected_answer :: string
  correct_answer :: string
  is_correct :: bool
  time_taken_seconds :: int

record Submission =
  student_id :: string
  exam_id :: string
  total_questions :: nat
  total_score :: nat
  time_taken_minutes :: int
  submitted_at :: "int option"

text \<open>Every request the component issues to the database client, in the order issued.\<close>

datatype db_call =
    InsertSubmission string string nat
  | UpsertResponse string string Response
  | UpdateSubmission string nat int int

text \<open>
  What a closure of one render sees of the component state. \<^verbatim>\<open>submitExam\<close> reads
  \<^verbatim>\<open>submissionId\<close>, \<^verbatim>\<open>answers\<close> and \<^verbatim>\<open>questions\<close> from the render in which the calling
  closure was created.
\<close>

record capture =
  cap_submissionId :: "string option"
  cap_answers :: "(string \<times> Answer) list"
  cap_questions :: "Question list"

record session =
  exam :: Exam
  student_ident :: "string option"
  questions :: "Question list"
  currentQuestionIndex :: int
  answers :: "(string \<times> Answer) list"
  timeRemaining :: int
  isFullscreen :: bool
  questionStartTime :: int
  submissionId :: "string option"
  isFullscreenRef :: bool
  pendingAutoSubmit :: bool
  fullscreenCapture :: capture
  timeouts :: "capture list"
  responses :: "((string \<times> string) \<times> Response) list"
  submissions :: "(string \<times> Submission) list"
  calls :: "db_call list"
  toasts :: "string list"
  console :: "string list"
  docFullscreen :: bool
  currentPhase :: ExamPhase

text \<open>
  The outcomes the surroundings choose for one run of \<^verbatim>\<open>submitExam\<close>: the clock read for
  the elapsed time, the clock read for \<^verbatim>\<open>submitted_at\<close>, which sweep upserts take effect
  (by question identity) and whether the final update succeeds.
\<close>

record submit_env =
  now :: int
  stamp :: int
  sweep_ok :: "string \<Rightarrow> bool"
  update_ok :: bool

section \<open>JavaScript helpers\<close>

text \<open>\<^verbatim>\<open>String.prototype.toLowerCase\<close> on the ASCII range.\<close>

definition lower_char :: "char \<Rightarrow> char" where
  "lower_char c =
     (let n = (of_char c :: nat) in if 65 \<le> n \<and> n \<le> 90 then char_of (n + 32) else c)"

definition toLowerCase :: "string \<Rightarrow> string" where
  "toLowerCase s = map lower_char s"

text \<open>Truthiness of a possibly null string: null and the empty string are falsy.\<close>

fun truthy :: "string option \<Rightarrow> bool" where
  "truthy None = False"
| "truthy (Some s) = (s \<noteq> [])"

text \<open>\<^verbatim>\<open>Map.prototype.has\<close> on the answer map.\<close>

definition has :: "('k \<times> 'v) list \<Rightarrow> 'k \<Rightarrow> bool" where
  "has m k = (map_of m k \<noteq> None)"

text \<open>\<^verbatim>\<open>toast({title: ...})\<close>, \<^verbatim>\<open>console.error\<close> and the \<^verbatim>\<open>onComplete\<close> callback of the page.\<close>

definition toast :: "string \<Rightarrow> session \<Rightarrow> session" where
  "toast t s = s\<lparr>toasts := toasts s @ [t]\<rparr>"

definition console_error :: "string \<Rightarrow> session \<Rightarrow> session" where
  "console_error m s = s\<lparr>console := console s @ [m]\<rparr>"

definition onComplete :: "session \<Rightarrow> session" where
  "onComplete s = s\<lparr>currentPhase := completed\<rparr>"

section \<open>Navigation\<close>

text \<open>
  \<^verbatim>\<open>navigateToQuestion\<close> stores the index it is given and restarts the per-question clock.
\<close>

definition navigateToQuestion :: "int \<Rightarrow> int \<Rightarrow> session \<Rightarrow> session" where
  "navigateToQuestion t index s = s\<lparr>currentQuestionIndex := index, questionStartTime := t\<rparr>"

text \<open>
  The three controls that call it: Previous is disabled at index 0, Next at the last
  index, and the grid renders one button per loaded question.
\<close>

definition click_previous :: "int \<Rightarrow> session \<Rightarrow> session" where
  "click_previous t s =
     (if currentQuestionIndex s = 0 then s
      else navigateToQuestion t (currentQuestionIndex s - 1) s)"

definition click_next :: "int \<Rightarrow> session \<Rightarrow> session" where
  "click_next t s =
     (if currentQuestionIndex s = int (length (questions s)) - 1 then s
      else navigateToQuestion t (currentQuestionIndex s + 1) s)"

definition click_grid :: "int \<Rightarrow> nat \<Rightarrow> session \<Rightarrow> session" where
  "click_grid t i s =
     (if i < length (questions s) then navigateToQuestion t (int i) s else s)"

definition index_in_range :: "session \<Rightarrow> bool" where
  "index_in_range s =
     (0 \<le> currentQuestionIndex s \<and> currentQuestionIndex s < int (length (questions s)))"

section \<open>Saving answers\<close>

text \<open>
  \<^verbatim>\<open>saveAnswer\<close> stores the record in the answer map first, then checks the submission
  identity, then issues the upsert keyed on (submission, question). The flag \<open>ok\<close> is
  the outcome of that upsert; a failed upsert is logged and nothing else happens.
\<close>

definition saveAnswer ::
  "int \<Rightarrow> bool \<Rightarrow> string \<Rightarrow> string \<Rightarrow> answer_status \<Rightarrow> session \<Rightarrow> session" where
  "saveAnswer t ok qid sel st s =
     (let answerData = \<lparr>questionId = qid, selectedAnswer = sel, status = st,
                         timeSpent = t - questionStartTime s\<rparr>;
          s1 = s\<lparr>answers := AList.update qid answerData (answers s)\<rparr>
      in case submissionId s of
           None \<Rightarrow>
             console_error ''Attempted to save answer without a submission ID''
               (toast ''Submission Error'' s1)
         | Some sid \<Rightarrow>
             if sid = [] then
               console_error ''Attempted to save answer without a submission ID''
                 (toast ''Submission Error'' s1)
             else
               (let question = find (\<lambda>q. id_question q = qid) (questions s);
                    correctAnswerLower =
                      (case question of None \<Rightarrow> [] | Some q \<Rightarrow> toLowerCase (correctAnswer q));
                    selectedAnswerLower = (if sel \<noteq> [] then toLowerCase sel else ''n'');
                    isCorrect =
                      (case question of
                         None \<Rightarrow> False
                       | Some q \<Rightarrow>
                           if selectedAnswerLower \<noteq> [] \<and> selectedAnswerLower \<noteq> ''n''
                           then selectedAnswerLower = correctAnswerLower else False);
                    row = \<lparr>selected_answer = selectedAnswerLower,
                           correct_answer = correctAnswerLower,
                           is_correct = isCorrect,
                           time_taken_seconds = (t - questionStartTime s) div 1000\<rparr>;
                    s2 = s1\<lparr>calls := calls s1 @ [UpsertResponse sid qid row]\<rparr>
                in if ok then s2\<lparr>responses := AList.update (sid, qid) row (responses s2)\<rparr>
                   else console_error ''Error saving response'' s2))"

text \<open>\<^verbatim>\<open>questions[currentQuestionIndex]\<close>: undefined outside the array.\<close>

definition question_at :: "Question list \<Rightarrow> int \<Rightarrow> Question option" where
  "question_at qs i = (if 0 \<le> i \<and> i < int (length qs) then Some (qs ! nat i) else None)"

text \<open>
  Reading \<^verbatim>\<open>.id\<close> of an undefined current question throws inside the click handler;
  the handler then changes nothing.
\<close>

definition handleAnswerSelect :: "int \<Rightarrow> bool \<Rightarrow> string \<Rightarrow> session \<Rightarrow> session" where
  "handleAnswerSelect t ok option s =
     (if \<not> truthy (submissionId s) then
        console_error ''Attempted to select answer without a submission ID''
          (toast ''Submission Error'' s)
      else case question_at (questions s) (currentQuestionIndex s) of
             None \<Rightarrow> s
           | Some currentQuestion \<Rightarrow> saveAnswer t ok (id_question currentQuestion) option answered s)"

definition markForReview :: "int \<Rightarrow> bool \<Rightarrow> session \<Rightarrow> session" where
  "markForReview t ok s =
     (if \<not> truthy (submissionId s) then
        console_error ''Attempted to mark for review without a submission ID''
          (toast ''Submission Error'' s)
      else case question_at (questions s) (currentQuestionIndex s) of
             None \<Rightarrow> s
           | Some currentQuestion \<Rightarrow>
               saveAnswer t ok (id_question currentQuestion)
                 (case map_of (answers s) (id_question currentQuestion) of
                    None \<Rightarrow> []
                  | Some currentAnswer \<Rightarrow> selectedAnswer currentAnswer)
                 marked_for_review s)"

section \<open>Finalization\<close>

text \<open>The counting loop of \<^verbatim>\<open>submitExam\<close> over \<^verbatim>\<open>Array.from(answers.values())\<close>.\<close>

definition counts_as_correct :: "Question list \<Rightarrow> Answer \<Rightarrow> bool" where
  "counts_as_correct qs answer =
     (if selectedAnswer answer \<noteq> [] \<and> status answer = answered then
        (case find (\<lambda>q. id_question q = questionId answer) qs of
           None \<Rightarrow> False
         | Some question \<Rightarrow> selectedAnswer answer = correctAnswer question)
      else False)"

definition totalScore :: "capture \<Rightarrow> nat" where
  "totalScore c =
     fold (\<lambda>answer n. if counts_as_correct (cap_questions c) answer then n + 1 else n)
       (map snd (cap_answers c)) 0"

text \<open>
  One iteration of the sweep: an upsert of the sentinel row for a question without an
  in-memory answer. A failed upsert is caught and the loop goes on.
\<close>

definition sweep_row :: "Question \<Rightarrow> Response" where
  "sweep_row question =
     \<lparr>selected_answer = ''n'', correct_answer = toLowerCase (correctAnswer question),
      is_correct = False, time_taken_seconds = 0\<rparr>"

definition sweep_one :: "string \<Rightarrow> (string \<Rightarrow> bool) \<Rightarrow> Question \<Rightarrow> session \<Rightarrow> session" where
  "sweep_one sid ok question s =
     (let s1 = s\<lparr>calls := calls s @ [UpsertResponse sid (id_question question) (sweep_row question)]\<rparr>
      in if ok (id_question question)
         then s1\<lparr>responses :=
                  AList.update (sid, id_question question) (sweep_row question) (responses s1)\<rparr>
         else s1)"

definition unansweredQuestions :: "capture \<Rightarrow> Question list" where
  "unansweredQuestions c =
     filter (\<lambda>q. \<not> has (cap_answers c) (id_question q)) (cap_questions c)"

definition timeTakenMinutes :: "int \<Rightarrow> int \<Rightarrow> int" where
  "timeTakenMinutes currentTime examStartTime = (currentTime - examStartTime) div (1000 * 60)"

text \<open>
  \<^verbatim>\<open>submitExam\<close>. The only guard is the submission identity of the calling closure.
  The final update changes the row with that identity, if there is one.
\<close>

definition submitExam :: "submit_env \<Rightarrow> bool \<Rightarrow> capture \<Rightarrow> session \<Rightarrow> session" where
  "submitExam e autoSubmit c s =
     (case cap_submissionId c of
        None \<Rightarrow> console_error ''No submission ID available'' s
      | Some sid \<Rightarrow>
          if sid = [] then console_error ''No submission ID available'' s
          else
            (let score = totalScore c;
                 s1 = fold (sweep_one sid (sweep_ok e)) (unansweredQuestions c) s;
                 minutes = timeTakenMinutes (now e) (startTime (exam s));
                 s2 = s1\<lparr>calls := calls s1 @ [UpdateSubmission sid score minutes (stamp e)]\<rparr>
             in if \<not> update_ok e then
                  toast ''Submission Error'' (console_error ''Error submitting exam'' s2)
                else
                  onComplete
                    ((toast (if autoSubmit then ''Exam Auto-Submitted'' else ''Exam Submitted'')
                       (s2\<lparr>submissions :=
                             AList.map_entry sid
                               (\<lambda>r. r\<lparr>total_score := score, time_taken_minutes := minutes,
                                       submitted_at := Some (stamp e)\<rparr>)
                               (submissions s2)\<rparr>))
                     \<lparr>docFullscreen := False\<rparr>)))"

text \<open>The score as the specification words it: case-insensitive comparison.\<close>

definition spec_counts_as_correct :: "Question list \<Rightarrow> Answer \<Rightarrow> bool" where
  "spec_counts_as_correct qs answer =
     (status answer = answered \<and>
      (case find (\<lambda>q. id_question q = questionId answer) qs of
         None \<Rightarrow> False
       | Some question \<Rightarrow>
           toLowerCase (selectedAnswer answer) = toLowerCase (correctAnswer question)))"

definition spec_score :: "capture \<Rightarrow> nat" where
  "spec_score c = length (filter (spec_counts_as_correct (cap_questions c)) (map snd (cap_answers c)))"

section \<open>Countdown\<close>

text \<open>
  The updater given to \<^verbatim>\<open>setTimeRemaining\<close> once per second: whether it calls
  \<^verbatim>\<open>submitExam(true)\<close>, and the new remaining time.
\<close>

definition timer_update :: "int \<Rightarrow> bool \<times> int" where
  "timer_update prev = (if prev \<le> 1 then (True, 0) else (False, prev - 1))"

text \<open>The expiry signals and the remaining time after a number of ticks.\<close>

fun ticks :: "nat \<Rightarrow> int \<Rightarrow> nat \<times> int" where
  "ticks 0 r = (0, r)"
| "ticks (Suc k) r =
     (case timer_update r of
        (fire, r') \<Rightarrow> (case ticks k r' of (m, r'') \<Rightarrow> ((if fire then 1 else 0) + m, r'')))"

text \<open>
  The interval is set up by an effect without dependencies, so the \<^verbatim>\<open>submitExam\<close> it
  calls is the one of the first render: no submission identity, no answers, no questions.
\<close>

definition first_render :: capture where
  "first_render = \<lparr>cap_submissionId = None, cap_answers = [], cap_questions = []\<rparr>"

definition timer_tick :: "submit_env \<Rightarrow> session \<Rightarrow> session" where
  "timer_tick e s =
     (case timer_update (timeRemaining s) of
        (fire, r) \<Rightarrow>
          (if fire then submitExam e True first_render s else s)\<lparr>timeRemaining := r\<rparr>)"

section \<open>Rendering\<close>

text \<open>
  What the component renders: the loading line while there are no questions, the exam
  screen otherwise. The exam screen reads \<^verbatim>\<open>currentQuestion.id\<close> of
  \<^verbatim>\<open>questions[currentQuestionIndex]\<close>; with the index outside the array that throws during
  rendering, and the whole tree is unmounted.
\<close>

datatype screen = Loading | ExamScreen | Crashed

definition render :: "session \<Rightarrow> screen" where
  "render s =
     (if length (questions s) = 0 then Loading
      else case question_at (questions s) (currentQuestionIndex s) of
             None \<Rightarrow> Crashed
           | Some currentQuestion \<Rightarrow> ExamScreen)"

text \<open>
  The component is mounted while the page is in the exam phase and rendering has not
  thrown. Effects of an unmounted component are cleaned up and its state setters do nothing.
\<close>

definition mounted :: "session \<Rightarrow> bool" where
  "mounted s = (currentPhase s = examPhase \<and> render s \<noteq> Crashed)"

section \<open>Proctoring\<close>

definition capture_of :: "session \<Rightarrow> capture" where
  "capture_of s =
     \<lparr>cap_submissionId = submissionId s, cap_answers = answers s, cap_questions = questions s\<rparr>"

text \<open>
  \<^verbatim>\<open>requestFullscreen()\<close> resolved: the document is in full screen and the toast is shown,
  whether or not the component is still mounted. The effect that copies \<^verbatim>\<open>isFullscreen\<close>
  into its ref runs with the render that follows.
\<close>

definition fullscreenGranted :: "session \<Rightarrow> session" where
  "fullscreenGranted s =
     toast ''Exam Started''
       (if mounted s
        then s\<lparr>isFullscreen := True, isFullscreenRef := True, docFullscreen := True\<rparr>
        else s\<lparr>docFullscreen := True\<rparr>)"

text \<open>
  \<^verbatim>\<open>handleFullscreenChange\<close>, for the render \<open>c\<close> that created it: a two-second timeout
  calling that render's \<^verbatim>\<open>submitExam(true)\<close> when that render had a submission identity,
  the pending flag otherwise. The ref follows \<^verbatim>\<open>setIsFullscreen(false)\<close> with the next render.
\<close>

definition handleFullscreenChange :: "capture \<Rightarrow> bool \<Rightarrow> session \<Rightarrow> session" where
  "handleFullscreenChange c isNowFullscreen s =
     (if \<not> isNowFullscreen \<and> isFullscreenRef s then
        (let s1 = toast ''Fullscreen Exit Detected'' (s\<lparr>isFullscreen := False, isFullscreenRef := False\<rparr>)
         in if truthy (cap_submissionId c) then s1\<lparr>timeouts := timeouts s1 @ [c]\<rparr>
            else s1\<lparr>pendingAutoSubmit := True\<rparr>)
      else s)"

text \<open>
  A \<^verbatim>\<open>fullscreenchange\<close> event of the document. The effect that registers the listeners
  returns at once while there is no submission identity, and unmounting removes them.
\<close>

definition fullscreenchange :: "bool \<Rightarrow> session \<Rightarrow> session" where
  "fullscreenchange isNowFullscreen s =
     (let s1 = s\<lparr>docFullscreen := isNowFullscreen\<rparr>
      in if truthy (submissionId s1) \<and> mounted s1
         then handleFullscreenChange (fullscreenCapture s1) isNowFullscreen s1
         else s1)"

text \<open>
  \<^verbatim>\<open>setSubmissionId\<close> and the effects that depend on the identity: the fullscreen handler is
  created anew by this render, and the replay effect consumes the pending flag.
\<close>

definition setSubmissionId :: "string \<Rightarrow> session \<Rightarrow> session" where
  "setSubmissionId sid s =
     (let s1 = s\<lparr>submissionId := Some sid\<rparr>;
          s2 = s1\<lparr>fullscreenCapture := capture_of s1\<rparr>
      in if truthy (submissionId s2) \<and> pendingAutoSubmit s2
         then s2\<lparr>timeouts := timeouts s2 @ [capture_of s2], pendingAutoSubmit := False\<rparr>
         else s2)"

section \<open>Loading\<close>

datatype query_result = QueryError | NoData | Rows "Question list"

text \<open>The state of a freshly mounted exam screen over the given tables.\<close>

definition mount ::
  "Exam \<Rightarrow> string option \<Rightarrow> int \<Rightarrow> ((string \<times> string) \<times> Response) list \<Rightarrow>
   (string \<times> Submission) list \<Rightarrow> session" where
  "mount ex sid t rs subs =
     \<lparr>exam = ex, student_ident = sid, questions = [], currentQuestionIndex = 0, answers = [],
      timeRemaining = 0, isFullscreen = False, questionStartTime = t, submissionId = None,
      isFullscreenRef = False, pendingAutoSubmit = False, fullscreenCapture = first_render,
      timeouts = [], responses = rs, submissions = subs, calls = [], toasts = [], console = [],
      docFullscreen = False, currentPhase = examPhase\<rparr>"

definition fetchQuestions :: "int \<Rightarrow> query_result \<Rightarrow> session \<Rightarrow> session" where
  "fetchQuestions t res s =
     (let remainingSeconds = max 0 ((endTime (exam s) - t) div 1000)
      in if remainingSeconds \<le> 0 then onComplete (toast ''Exam Ended'' s)
         else
           (let s1 = s\<lparr>timeRemaining := remainingSeconds\<rparr>
            in case res of
                 QueryError \<Rightarrow> toast ''Error'' (console_error ''Error fetching questions'' s1)
               | NoData \<Rightarrow> toast ''No Questions Found'' s1
               | Rows questionsData \<Rightarrow>
                   if length questionsData > 0 then s1\<lparr>questions := questionsData\<rparr>
                   else toast ''No Questions Found'' s1))"

text \<open>
  \<^verbatim>\<open>createSubmission\<close>, with the outcome of the insert: the new identity, or none when the
  insert failed.
\<close>

definition createSubmission :: "string option \<Rightarrow> session \<Rightarrow> session" where
  "createSubmission res s =
     (case student_ident s of
        None \<Rightarrow> s
      | Some student \<Rightarrow>
          if student = [] \<or> length (questions s) = 0 then s
          else
            (let s1 = s\<lparr>calls := calls s @
                          [InsertSubmission student (id_exam (exam s)) (length (questions s))]\<rparr>
             in case res of
                  None \<Rightarrow> toast ''Error'' (console_error ''Error creating submission'' s1)
                | Some sid \<Rightarrow>
                    setSubmissionId sid
                      (s1\<lparr>submissions := AList.update sid
                            \<lparr>student_id = student, exam_id = id_exam (exam s),
                             total_questions = length (questions s), total_score = 0,
                             time_taken_minutes = 0, submitted_at = None\<rparr>
                            (submissions s1)\<rparr>)))"

section \<open>Events of a session\<close>

text \<open>
  What can happen to a mounted exam screen. The controls exist only while the exam screen
  is rendered; the interval is cleared when the component unmounts; a timeout, once set, is
  never cleared. Each handler runs to its end before the next event: the suspensions of a
  handler at its database requests are not interleaved with other events.
\<close>

datatype event =
    FullscreenGranted
  | FullscreenChange bool
  | Tick submit_env
  | TimeoutFires submit_env
  | SelectOption int bool string
  | MarkClick int bool
  | PreviousClick int
  | NextClick int
  | GridClick int nat
  | SubmitClick submit_env

definition controls_shown :: "session \<Rightarrow> bool" where
  "controls_shown s = (currentPhase s = examPhase \<and> render s = ExamScreen)"

fun step :: "session \<Rightarrow> event \<Rightarrow> session" where
  "step s FullscreenGranted = fullscreenGranted s"
| "step s (FullscreenChange b) = fullscreenchange b s"
| "step s (Tick e) = (if mounted s then timer_tick e s else s)"
| "step s (TimeoutFires e) =
     (case timeouts s of [] \<Rightarrow> s | c # cs \<Rightarrow> submitExam e True c (s\<lparr>timeouts := cs\<rparr>))"
| "step s (SelectOption t ok option) =
     (if controls_shown s \<and> option \<in> set [''A'', ''B'', ''C'', ''D'']
      then handleAnswerSelect t ok option s else s)"
| "step s (MarkClick t ok) = (if controls_shown s then markForReview t ok s else s)"
| "step s (PreviousClick t) = (if controls_shown s then click_previous t s else s)"
| "step s (NextClick t) = (if controls_shown s then click_next t s else s)"
| "step s (GridClick t i) = (if controls_shown s then click_grid t i s else s)"
| "step s (SubmitClick e) =
     (if controls_shown s then submitExam e False (capture_of s) s else s)"

definition run :: "session \<Rightarrow> event list \<Rightarrow> session" where
  "run s evs = foldl step s evs"

text \<open>
  A session: the screen mounts and asks for the questions; events \<open>pre\<close> happen while
  the submission row is being inserted; the insert returns; events \<open>post\<close> follow.
\<close>

definition session_run ::
  "session \<Rightarrow> int \<Rightarrow> query_result \<Rightarrow> event list \<Rightarrow> string option \<Rightarrow> event list \<Rightarrow> session" where
  "session_run s0 t res pre ins post =
     run (createSubmission ins (run (fetchQuestions t res s0) pre)) post"

section \<open>Access code and registration\<close>

text \<open>
  The exam handed to the later screens: a missing start time defaults to the current
  instant, a missing end time to one hour later.
\<close>

definition examData ::
  "int \<Rightarrow> string \<Rightarrow> string \<Rightarrow> string \<Rightarrow> string \<Rightarrow> int option \<Rightarrow> int option \<Rightarrow> string \<Rightarrow> Exam" where
  "examData t i n tp code start_time end_time st =
     \<lparr>id_exam = i, name_exam = n, topic = tp, accessCode = code,
      startTime = (case start_time of None \<Rightarrow> t | Some x \<Rightarrow> x),
      endTime = (case end_time of None \<Rightarrow> t + 3600000 | Some x \<Rightarrow> x),
      status_exam = st\<rparr>"

text \<open>
  What the student types is a JavaScript string of any characters: it is modelled as the
  list of its UTF-16 code units.
\<close>

type_synonym ustring = "nat list"

definition codes :: "string \<Rightarrow> ustring" where
  "codes s = map of_char s"

record formData =
  name :: ustring
  email :: ustring
  rollNumber :: ustring

record student_row =
  id_row :: string
  name_row :: ustring
  email_row :: ustring
  roll_number :: ustring

record Student =
  id_student :: "string option"
  name_student :: ustring
  email_student :: ustring
  rollNumber_student :: ustring

text \<open>
  \<^verbatim>\<open>String.prototype.trim\<close> removes the white space and the line terminators of
  ECMAScript from both ends: tab, line feed, vertical tab, form feed, carriage return,
  space, no-break space, U+1680, U+2000 to U+200A, the line and paragraph separators,
  U+202F, U+205F, U+3000 and U+FEFF.
\<close>

definition is_space :: "nat \<Rightarrow> bool" where
  "is_space c =
     (c \<in> set [9, 10, 11, 12, 13, 32, 160, 5760, 8232, 8233, 8239, 8287, 12288, 65279] \<or>
      (8192 \<le> c \<and> c \<le> 8202))"

definition trim :: "ustring \<Rightarrow> ustring" where
  "trim s = rev (dropWhile is_space (rev (dropWhile is_space s)))"

text \<open>\<^verbatim>\<open>maybeSingle()\<close>: no row, the row, or an error when several rows match.\<close>

datatype 'a single = NoRow | OneRow 'a | ManyRows

fun maybeSingle :: "'a list \<Rightarrow> 'a single" where
  "maybeSingle [] = NoRow"
| "maybeSingle [x] = OneRow x"
| "maybeSingle (x # y # zs) = ManyRows"

text \<open>
  The outcomes of the three requests of a registration: whether the two selects succeed,
  and the identity the insert returns (none when it fails).
\<close>

record reg_env =
  students_ok :: bool
  inserted :: "string option"
  submissions_ok :: bool

datatype reg_outcome =
    Incomplete | InvalidEmail | RegistrationFailed | AlreadySubmitted | Registered Student

definition check_submission ::
  "reg_env \<Rightarrow> formData \<Rightarrow> Exam \<Rightarrow> string \<Rightarrow> (string \<times> Submission) list \<Rightarrow> reg_outcome" where
  "check_submission env f ex studentId subs =
     (if \<not> submissions_ok env then RegistrationFailed
      else case maybeSingle
                  (filter (\<lambda>r. student_id (snd r) = studentId \<and> exam_id (snd r) = id_exam ex) subs) of
             ManyRows \<Rightarrow> RegistrationFailed
           | OneRow existingSubmission \<Rightarrow> AlreadySubmitted
           | NoRow \<Rightarrow>
               Registered \<lparr>id_student = Some studentId, name_student = name f,
                           email_student = email f, rollNumber_student = rollNumber f\<rparr>)"

text \<open>
  \<^verbatim>\<open>StudentRegistration.handleSubmit\<close>: the outcome shown to the student and the students
  table afterwards. The code unit 64 is the at sign.
\<close>

definition handleSubmit ::
  "reg_env \<Rightarrow> formData \<Rightarrow> Exam \<Rightarrow> student_row list \<Rightarrow> (string \<times> Submission) list \<Rightarrow>
   reg_outcome \<times> student_row list" where
  "handleSubmit env f ex studs subs =
     (if trim (name f) = [] \<or> trim (email f) = [] \<or> trim (rollNumber f) = [] then (Incomplete, studs)
      else if 64 \<notin> set (email f) then (InvalidEmail, studs)
      else if \<not> students_ok env then (RegistrationFailed, studs)
      else case maybeSingle (filter (\<lambda>r. roll_number r = rollNumber f) studs) of
             ManyRows \<Rightarrow> (RegistrationFailed, studs)
           | OneRow existingStudent \<Rightarrow>
               (check_submission env f ex (id_row existingStudent) subs, studs)
           | NoRow \<Rightarrow>
               (case inserted env of
                  None \<Rightarrow> (RegistrationFailed, studs)
                | Some newId \<Rightarrow>
                    (check_submission env f ex newId subs,
                     studs @ [\<lparr>id_row = newId, name_row = name f, email_row = email f,
                               roll_number = rollNumber f\<rparr>])))"

section \<open>Observations and sample data\<close>

text \<open>The finalize sequences run so far: each one ends by issuing the final update.\<close>

fun is_final_update :: "db_call \<Rightarrow> bool" where
  "is_final_update (UpdateSubmission sid score minutes at) = True"
| "is_final_update (InsertSubmission st ex n) = False"
| "is_final_update (UpsertResponse sid q r) = False"

definition finalize_count :: "session \<Rightarrow> nat" where
  "finalize_count s = length (filter is_final_update (calls s))"

text \<open>The position of the student is inside the loaded questions as soon as there are any.\<close>

definition loaded_in_range :: "session \<Rightarrow> bool" where
  "loaded_in_range s = (length (questions s) = 0 \<or> index_in_range s)"

text \<open>The durable answer rows of one submission.\<close>

definition durable_count :: "string \<Rightarrow> session \<Rightarrow> nat" where
  "durable_count sid s = length (filter (\<lambda>k. fst k = sid) (map fst (responses s)))"

text \<open>A submit trigger: the outcomes of its run, the auto flag and the closure that fires it.\<close>

definition trigger :: "submit_env \<times> bool \<times> capture \<Rightarrow> session \<Rightarrow> session" where
  "trigger tr s = submitExam (fst tr) (fst (snd tr)) (snd (snd tr)) s"

definition sees_identity :: "submit_env \<times> bool \<times> capture \<Rightarrow> bool" where
  "sees_identity tr = truthy (cap_submissionId (snd (snd tr)))"

fun answer_saved :: "event \<Rightarrow> bool" where
  "answer_saved (SelectOption t ok option) = ok"
| "answer_saved (MarkClick t ok) = ok"
| "answer_saved ev = True"

definition demo_exam :: Exam where
  "demo_exam = examData 0 ''e1'' ''Maths'' ''Algebra'' ''MATHS101'' (Some 0) (Some 3600000) ''active''"

definition demo_question :: "string \<Rightarrow> string \<Rightarrow> int \<Rightarrow> Question" where
  "demo_question i c n =
     \<lparr>id_question = i, examId = ''e1'', questionText = ''?'', optionA = ''w'', optionB = ''x'',
      optionC = ''y'', optionD = ''z'', correctAnswer = c, topicTag = ''t'', questionOrder = n\<rparr>"

definition demo_questions :: "Question list" where
  "demo_questions =
     [demo_question ''q1'' ''b'' 1, demo_question ''q2'' ''A'' 2, demo_question ''q3'' ''C'' 3]"

definition demo_env :: submit_env where
  "demo_env = \<lparr>now = 600000, stamp = 600001, sweep_ok = (\<lambda>q. True), update_ok = True\<rparr>"

definition demo_mounted :: session where
  "demo_mounted = mount demo_exam (Some ''st1'') 0 [] []"

definition demo_loaded :: session where
  "demo_loaded = fetchQuestions 1000 (Rows demo_questions) demo_mounted"

definition demo_active :: session where
  "demo_active = createSubmission (Some ''sub1'') demo_loaded"

definition demo_env_late :: submit_env where
  "demo_env_late = \<lparr>now = 700000, stamp = 700001, sweep_ok = (\<lambda>q. True), update_ok = True\<rparr>"

text \<open>
  The student leaves full screen, presses Submit within the two seconds of the timeout,
  and the timeout fires afterwards.
\<close>

definition demo_race :: "event list" where
  "demo_race =
     [FullscreenGranted, FullscreenChange False, SubmitClick demo_env, TimeoutFires demo_env_late]"

text \<open>An active exam whose stored start time lies two hours after the access-code check.\<close>

definition demo_future_exam :: Exam where
  "demo_future_exam =
     examData 0 ''e2'' ''Physics'' ''Optics'' ''PHYS202'' (Some 7200000) (Some 10800000) ''active''"

definition demo_future_active :: session where
  "demo_future_active =
     session_run (mount demo_future_exam (Some ''st1'') 0 [] []) 1000 (Rows demo_questions) []
       (Some ''sub2'') []"

definition demo_triggers :: "(submit_env \<times> bool \<times> capture) list" where
  "demo_triggers =
     [(demo_env, False, capture_of demo_active),
      (demo_env_late, True, first_render),
      (demo_env_late, True, fullscreenCapture demo_active)]"

definition demo_clicks :: "event list" where
  "demo_clicks = [NextClick 10, NextClick 20, NextClick 30, GridClick 40 7, PreviousClick 50]"

text \<open>
  Two states that agree on everything but the toasts, the console, the clock of the
  countdown, the full-screen flags and the position of the student.
\<close>

definition untouched :: "session \<Rightarrow> session \<Rightarrow> bool" where
  "untouched s s' =
     (questions s' = questions s \<and> submissionId s' = submissionId s \<and>
      answers s' = answers s \<and> responses s' = responses s \<and>
      submissions s' = submissions s \<and> calls s' = calls s \<and>
      timeouts s' = timeouts s \<and> pendingAutoSubmit s' = pendingAutoSubmit s \<and>
      currentPhase s' = currentPhase s \<and> exam s' = exam s \<and>
      student_ident s' = student_ident s \<and> fullscreenCapture s' = fullscreenCapture s \<and>
      set (toasts s) \<subseteq> set (toasts s'))"

text \<open>The student is granted full screen and leaves it while the submission row is being inserted.\<close>

definition demo_early_exit :: "event list" where
  "demo_early_exit = [FullscreenGranted, FullscreenChange False]"

definition demo_form :: formData where
  "demo_form =
     \<lparr>name = codes ''Ada B'', email = codes ''ada@example.org'', rollNumber = codes ''R7''\<rparr>"

definition demo_students :: "student_row list" where
  "demo_students =
     [\<lparr>id_row = ''st1'', name_row = codes ''Ada Byron'', email_row = codes ''old@example.org'',
       roll_number = codes ''R7''\<rparr>,
      \<lparr>id_row = ''st2'', name_row = codes ''Alan'', email_row = codes ''alan@example.org'',
       roll_number = codes ''R8''\<rparr>]"

definition demo_reg_env :: reg_env where
  "demo_reg_env = \<lparr>students_ok = True, inserted = Some ''st9'', submissions_ok = True\<rparr>"

text \<open>
  The closure created by the render in which the submission identity first appears: it
  holds the identity, the loaded questions and an empty answer map.
\<close>

definition initial_capture :: "string \<Rightarrow> Question list \<Rightarrow> capture" where
  "initial_capture sid qs = \<lparr>cap_submissionId = Some sid, cap_answers = [], cap_questions = qs\<rparr>"

text \<open>
  The state of a session in which every answer held in memory also has its row: the rows
  of the submission belong to loaded questions, every answered question has a row, and
  every closure that may still call \<^verbatim>\<open>submitExam\<close> from a timeout is the initial one.
\<close>

definition answers_durable :: "string \<Rightarrow> Question list \<Rightarrow> session \<Rightarrow> bool" where
  "answers_durable sid qs s =
     (questions s = qs \<and> submissionId s = Some sid \<and> sid \<noteq> [] \<and>
      distinct (map fst (responses s)) \<and>
      (\<forall>k \<in> fst ` set (responses s). fst k = sid \<longrightarrow> snd k \<in> id_question ` set qs) \<and>
      (\<forall>q \<in> fst ` set (answers s). (sid, q) \<in> fst ` set (responses s)) \<and>
      fullscreenCapture s = initial_capture sid qs \<and>
      set (timeouts s) \<subseteq> {initial_capture sid qs})"

definition sweep_rows ::
  "string \<Rightarrow> (string \<Rightarrow> bool) \<Rightarrow> Question list \<Rightarrow> ((string \<times> string) \<times> Response) list \<Rightarrow>
   ((string \<times> string) \<times> Response) list" where
  "sweep_rows sid ok qs rs =
     fold (\<lambda>q rs. if ok (id_question q)
                    then AList.update (sid, id_question q) (sweep_row q) rs else rs) qs rs"

definition demo_answering :: "event list" where
  "demo_answering =
     [SelectOption 5000 True ''B'', NextClick 6000, MarkClick 7000 True, FullscreenGranted,
      FullscreenChange False]"

definition demo_session :: session where
  "demo_session =
     session_run demo_mounted 1000 (Rows demo_questions) demo_early_exit (Some ''sub1'')
       demo_answering"

text \<open>The upsert of the first answer fails; the student then submits.\<close>

definition demo_lost_write :: "event list" where
  "demo_lost_write = [SelectOption 5000 False ''B'', SubmitClick demo_env]"

section \<open>Auxiliary facts\<close>

lemmas handler_defs = submitExam_def handleAnswerSelect_def markForReview_def saveAnswer_def
  fullscreenGranted_def fullscreenchange_def handleFullscreenChange_def timer_tick_def
  timer_update_def click_previous_def click_next_def click_grid_def navigateToQuestion_def
  toast_def console_error_def onComplete_def capture_of_def controls_shown_def render_def mounted_def
  question_at_def unansweredQuestions_def has_def totalScore_def counts_as_correct_def
  timeTakenMinutes_def sweep_one_def sweep_row_def Let_def

lemmas demo_defs = demo_active_def demo_loaded_def demo_mounted_def mount_def fetchQuestions_def
  demo_exam_def examData_def demo_questions_def demo_question_def first_render_def
  createSubmission_def setSubmissionId_def demo_env_def demo_env_late_def demo_race_def
  demo_future_exam_def demo_future_active_def session_run_def run_def demo_triggers_def
  demo_clicks_def

lemma toLowerCase_labels [simp]:
  "toLowerCase ''b'' = ''b''" "toLowerCase ''B'' = ''b''" "toLowerCase ''A'' = ''a''"
  "toLowerCase ''C'' = ''c''"
  by code_simp+

text \<open>The sweep loop in closed form: it touches the request log and the answer rows only.\<close>

lemma sweep_fold:
  "fold (sweep_one sid ok) qs s =
     s\<lparr>calls := calls s @ map (\<lambda>q. UpsertResponse sid (id_question q) (sweep_row q)) qs,
       responses := fold (\<lambda>q rs. if ok (id_question q)
                                  then AList.update (sid, id_question q) (sweep_row q) rs else rs)
                      qs (responses s)\<rparr>"
  by (induction qs arbitrary: s) (simp_all add: sweep_one_def Let_def)

lemma no_final_update_in_sweep [simp]:
  "filter is_final_update (map (\<lambda>q. UpsertResponse sid (f q) (g q)) qs) = []"
  by (induction qs) simp_all

lemma finalize_count_submitExam:
  "finalize_count (submitExam e a c s) =
     (if truthy (cap_submissionId c) then finalize_count s + 1 else finalize_count s)"
  by (simp add: finalize_count_def submitExam_def Let_def sweep_fold toast_def console_error_def
        onComplete_def split: option.splits)

lemma submitExam_frame:
  "questions (submitExam e a c s) = questions s"
  "currentQuestionIndex (submitExam e a c s) = currentQuestionIndex s"
  "answers (submitExam e a c s) = answers s"
  "submissionId (submitExam e a c s) = submissionId s"
  "fullscreenCapture (submitExam e a c s) = fullscreenCapture s"
  "timeouts (submitExam e a c s) = timeouts s"
  "pendingAutoSubmit (submitExam e a c s) = pendingAutoSubmit s"
  "exam (submitExam e a c s) = exam s"
  by (simp_all add: submitExam_def Let_def sweep_fold toast_def console_error_def onComplete_def
        split: option.splits)

lemma saveAnswer_frame:
  "questions (saveAnswer t ok q sel st s) = questions s"
  "currentQuestionIndex (saveAnswer t ok q sel st s) = currentQuestionIndex s"
  "submissionId (saveAnswer t ok q sel st s) = submissionId s"
  "fullscreenCapture (saveAnswer t ok q sel st s) = fullscreenCapture s"
  "timeouts (saveAnswer t ok q sel st s) = timeouts s"
  "pendingAutoSubmit (saveAnswer t ok q sel st s) = pendingAutoSubmit s"
  "currentPhase (saveAnswer t ok q sel st s) = currentPhase s"
  by (simp_all add: saveAnswer_def Let_def toast_def console_error_def split: option.splits)

lemma step_index_in_range: "index_in_range s \<Longrightarrow> index_in_range (step s ev)"
  by (cases ev)
    (auto simp: index_in_range_def fullscreenGranted_def fullscreenchange_def
      handleFullscreenChange_def timer_tick_def timer_update_def submitExam_frame saveAnswer_frame
      handleAnswerSelect_def markForReview_def click_previous_def click_next_def click_grid_def
      navigateToQuestion_def toast_def console_error_def Let_def
      split: option.splits list.splits if_splits)

lemma run_index_in_range: "index_in_range s \<Longrightarrow> index_in_range (run s evs)"
  unfolding run_def
  by (induction evs arbitrary: s) (simp_all add: step_index_in_range)

lemma step_questions: "questions (step s ev) = questions s"
  by (cases ev)
    (auto simp: fullscreenGranted_def fullscreenchange_def handleFullscreenChange_def
      timer_tick_def submitExam_frame saveAnswer_frame handleAnswerSelect_def markForReview_def
      click_previous_def click_next_def click_grid_def navigateToQuestion_def toast_def
      console_error_def Let_def split: option.splits list.splits prod.splits)

lemma step_loaded_in_range: "loaded_in_range s \<Longrightarrow> loaded_in_range (step s ev)"
  unfolding loaded_in_range_def
  by (auto simp: step_questions dest: step_index_in_range)

lemma run_loaded_in_range: "loaded_in_range s \<Longrightarrow> loaded_in_range (run s evs)"
  unfolding run_def
  by (induction evs arbitrary: s) (simp_all add: step_loaded_in_range)

lemma createSubmission_frame:
  "questions (createSubmission ins s) = questions s"
  "currentQuestionIndex (createSubmission ins s) = currentQuestionIndex s"
  by (simp_all add: createSubmission_def setSubmissionId_def Let_def toast_def console_error_def
        split: option.splits)

section \<open>Submit triggers\<close>

text \<open>
  C1 (as amended). \<^verbatim>\<open>submitExam\<close> has no latch. Of any sequence of submit triggers, each one
  whose closure holds a submission identity runs a finalize sequence of its own, so the
  number of finalize sequences grows by the number of such triggers. One such run issues
  the upserts of the sweep and then the final update with the computed score, the time
  taken and the stamp, and that update, when it succeeds, writes score, time taken and
  submitted-at of the submission row anew. A trigger whose closure holds no identity
  changes nothing but the console.
\<close>

theorem finalize_runs_once_per_trigger:
  "finalize_count (fold trigger trs s) = finalize_count s + length (filter sees_identity trs) \<and>
   (cap_submissionId c = Some sid \<and> sid \<noteq> [] \<longrightarrow>
      calls (trigger (e, a, c) s) =
        calls s @
        map (\<lambda>q. UpsertResponse sid (id_question q) (sweep_row q)) (unansweredQuestions c) @
        [UpdateSubmission sid (totalScore c) ((now e - startTime (exam s)) div 60000) (stamp e)] \<and>
      submissions (trigger (e, a, c) s) =
        (if update_ok e
         then AList.map_entry sid
                (\<lambda>r. r\<lparr>total_score := totalScore c,
                        time_taken_minutes := (now e - startTime (exam s)) div 60000,
                        submitted_at := Some (stamp e)\<rparr>)
                (submissions s)
         else submissions s)) \<and>
   (\<not> sees_identity (e, a, c) \<longrightarrow>
      trigger (e, a, c) s = s\<lparr>console := console s @ [''No submission ID available'']\<rparr>)"
proof -
  have count: "finalize_count (fold trigger trs s) =
      finalize_count s + length (filter sees_identity trs)"
    by (induction trs arbitrary: s)
      (simp_all add: trigger_def sees_identity_def finalize_count_submitExam)
  have run: "calls (trigger (e, a, c) s) =
        calls s @
        map (\<lambda>q. UpsertResponse sid (id_question q) (sweep_row q)) (unansweredQuestions c) @
        [UpdateSubmission sid (totalScore c) ((now e - startTime (exam s)) div 60000) (stamp e)] \<and>
      submissions (trigger (e, a, c) s) =
        (if update_ok e
         then AList.map_entry sid
                (\<lambda>r. r\<lparr>total_score := totalScore c,
                        time_taken_minutes := (now e - startTime (exam s)) div 60000,
                        submitted_at := Some (stamp e)\<rparr>)
                (submissions s)
         else submissions s)"
    if "cap_submissionId c = Some sid \<and> sid \<noteq> []"
    using that
    by (simp add: trigger_def submitExam_def Let_def sweep_fold toast_def console_error_def
          onComplete_def timeTakenMinutes_def)
  have none: "trigger (e, a, c) s = s\<lparr>console := console s @ [''No submission ID available'']\<rparr>"
    if "\<not> sees_identity (e, a, c)"
    using that
    by (cases "cap_submissionId c")
      (simp_all add: trigger_def sees_identity_def submitExam_def console_error_def)
  from count run none show ?thesis
    by blast
qed

theorem finalize_runs_once_per_trigger_witness:
  "finalize_count (fold trigger demo_triggers demo_active) = 2 \<and>
   calls (trigger (demo_env, False, capture_of demo_active) demo_active) =
     [InsertSubmission ''st1'' ''e1'' 3,
      UpsertResponse ''sub1'' ''q1'' (sweep_row (demo_question ''q1'' ''b'' 1)),
      UpsertResponse ''sub1'' ''q2'' (sweep_row (demo_question ''q2'' ''A'' 2)),
      UpsertResponse ''sub1'' ''q3'' (sweep_row (demo_question ''q3'' ''C'' 3)),
      UpdateSubmission ''sub1'' 0 10 600001] \<and>
   map_option submitted_at
     (map_of (submissions (trigger (demo_env, False, capture_of demo_active) demo_active)) ''sub1'')
     = Some (Some 600001) \<and>
   console (trigger (demo_env_late, True, first_render) demo_active) =
     [''No submission ID available'']"
proof -
  have c: "cap_submissionId (capture_of demo_active) = Some ''sub1'' \<and> ''sub1'' \<noteq> []"
    by (simp add: demo_defs capture_of_def)
  have n: "\<not> sees_identity (demo_env_late, True, first_render)"
    by (simp add: sees_identity_def first_render_def)
  have a: "calls demo_active = [InsertSubmission ''st1'' ''e1'' 3]"
    "console demo_active = []"
    "submissions demo_active =
      [(''sub1'', \<lparr>student_id = ''st1'', exam_id = ''e1'', total_questions = 3, total_score = 0,
         time_taken_minutes = 0, submitted_at = None\<rparr>)]"
    "startTime (exam demo_active) = 0"
    by (simp_all add: demo_defs)
  have e: "now demo_env = 600000" "stamp demo_env = 600001" "update_ok demo_env"
    by (simp_all add: demo_env_def)
  have u: "map (\<lambda>q. UpsertResponse ''sub1'' (id_question q) (sweep_row q))
        (unansweredQuestions (capture_of demo_active)) =
      [UpsertResponse ''sub1'' ''q1'' (sweep_row (demo_question ''q1'' ''b'' 1)),
       UpsertResponse ''sub1'' ''q2'' (sweep_row (demo_question ''q2'' ''A'' 2)),
       UpsertResponse ''sub1'' ''q3'' (sweep_row (demo_question ''q3'' ''C'' 3))]"
    "totalScore (capture_of demo_active) = 0"
    by (simp_all add: demo_defs unansweredQuestions_def has_def capture_of_def totalScore_def)
  have k: "length (filter sees_identity demo_triggers) = 2" "finalize_count demo_active = 0"
    by (simp_all add: demo_defs sees_identity_def capture_of_def finalize_count_def)
  have first: "finalize_count (fold trigger demo_triggers demo_active) = 2"
    and run: "calls (trigger (demo_env, False, capture_of demo_active) demo_active) =
        calls demo_active @
        map (\<lambda>q. UpsertResponse ''sub1'' (id_question q) (sweep_row q))
          (unansweredQuestions (capture_of demo_active)) @
        [UpdateSubmission ''sub1'' (totalScore (capture_of demo_active))
           ((now demo_env - startTime (exam demo_active)) div 60000) (stamp demo_env)]"
    and row: "submissions (trigger (demo_env, False, capture_of demo_active) demo_active) =
        (if update_ok demo_env
         then AList.map_entry ''sub1''
                (\<lambda>r. r\<lparr>total_score := totalScore (capture_of demo_active),
                        time_taken_minutes :=
                          (now demo_env - startTime (exam demo_active)) div 60000,
                        submitted_at := Some (stamp demo_env)\<rparr>)
                (submissions demo_active)
         else submissions demo_active)"
    using finalize_runs_once_per_trigger
      [of demo_triggers demo_active "capture_of demo_active" "''sub1''" demo_env False] c k
    by simp_all
  have silent: "trigger (demo_env_late, True, first_render) demo_active =
      demo_active\<lparr>console := console demo_active @ [''No submission ID available'']\<rparr>"
    using finalize_runs_once_per_trigger
      [of "[]" demo_active first_render "''sub1''" demo_env_late True] n
    by simp
  show ?thesis
    by (simp add: first run row silent a e u)
qed

text \<open>
  C1 fails as stated: the student leaves full screen, submits by hand before the timeout
  of the violation fires, and the timeout then runs a second finalize sequence.
\<close>

theorem finalize_runs_twice_counterexample:
  "finalize_count (run demo_active demo_race) = 2 \<and>
   map_option submitted_at (map_of (submissions (run demo_active (butlast demo_race))) ''sub1'')
     = Some (Some 600001) \<and>
   map_option submitted_at (map_of (submissions (run demo_active demo_race)) ''sub1'')
     = Some (Some 700001)"
  by (simp add: finalize_count_def demo_defs handler_defs)

section \<open>Scoring\<close>

text \<open>
  C2. The claim asks for a case-insensitive comparison at finalization. On the stored
  correct label \<open>b\<close> and the selection \<open>B\<close>, \<^verbatim>\<open>saveAnswer\<close> stores the answer row as
  correct, the count of the specification is 1, and \<^verbatim>\<open>submitExam\<close> commits the score 0.
\<close>

theorem score_compares_case_sensitively:
  "map_option total_score
     (map_of (submissions (run demo_active [SelectOption 5000 True ''B'', SubmitClick demo_env]))
        ''sub1'') = Some 0 \<and>
   map_option is_correct
     (map_of (responses (run demo_active [SelectOption 5000 True ''B'', SubmitClick demo_env]))
        (''sub1'', ''q1'')) = Some True \<and>
   spec_score (capture_of (run demo_active [SelectOption 5000 True ''B''])) = 1"
  by (simp add: demo_defs handler_defs spec_score_def spec_counts_as_correct_def)

section \<open>Countdown expiry\<close>

text \<open>
  C3 (as amended). The updater calls \<^verbatim>\<open>submitExam(true)\<close> on every tick that finds the
  remaining time at 1 or below, not only on the first one. After \<open>k\<close> ticks from the
  remaining time \<open>r\<close> the expiry signal has fired \<open>k - (r - 1)\<close> times (no time when
  \<open>k < r\<close>), and the remaining time is \<open>r - k\<close>, or 0 once that would be negative.
\<close>

theorem expiry_fires_on_every_late_tick:
  "ticks k r = (k - nat (r - 1), if k = 0 then r else max 0 (r - int k))"
proof (induction k arbitrary: r)
  case 0
  show ?case by simp
next
  case (Suc k)
  show ?case
  proof (cases "r \<le> 1")
    case True
    then show ?thesis by (simp add: Suc timer_update_def)
  next
    case False
    then show ?thesis by (auto simp add: Suc timer_update_def)
  qed
qed

text \<open>
  C3 fails as stated: from one second remaining, three ticks give three expiry signals.
\<close>

theorem expiry_fires_thrice_counterexample:
  "fst (ticks 3 1) = 3 \<and> fst (ticks 3 1) \<noteq> 1"
  by (simp add: numeral_3_eq_3 timer_update_def)

section \<open>Time taken\<close>

text \<open>
  C7 (as amended). The final update of a finalize sequence carries the floor of the
  elapsed milliseconds over 60000, with no lower bound; that number is non-negative
  exactly when the exam start time is not later than the clock read.
\<close>

theorem time_taken_is_floor_of_elapsed:
  assumes "cap_submissionId c = Some sid" and "sid \<noteq> []"
  shows "last (calls (submitExam e a c s)) =
           UpdateSubmission sid (totalScore c) ((now e - startTime (exam s)) div 60000) (stamp e) \<and>
         (0 \<le> (now e - startTime (exam s)) div 60000 \<longleftrightarrow> startTime (exam s) \<le> now e)"
proof -
  have "(0 \<le> (now e - startTime (exam s)) div 60000) = (startTime (exam s) \<le> now e)"
    by (simp add: pos_imp_zdiv_nonneg_iff)
  with assms show ?thesis
    by (simp add: submitExam_def Let_def sweep_fold toast_def console_error_def onComplete_def
          timeTakenMinutes_def)
qed

theorem time_taken_is_floor_of_elapsed_witness:
  "last (calls (submitExam demo_env False (capture_of demo_future_active) demo_future_active)) =
     UpdateSubmission ''sub2'' 0 (- 110) 600001"
  using time_taken_is_floor_of_elapsed
    [of "capture_of demo_future_active" "''sub2''" demo_env False demo_future_active]
  by (simp add: demo_defs handler_defs)

text \<open>
  C7 fails as stated: an active exam whose stored start time is two hours ahead, submitted
  after ten minutes, commits a time taken of minus 110 minutes.
\<close>

theorem time_taken_negative_counterexample:
  "map_option time_taken_minutes
     (map_of (submissions (run demo_future_active [SubmitClick demo_env])) ''sub2'') = Some (- 110)"
  by (simp add: demo_defs handler_defs)

section \<open>Navigation bounds\<close>

text \<open>
  C8. The one place that stores an index, \<^verbatim>\<open>navigateToQuestion\<close>, is reached through
  Previous, Next and the grid buttons only, and each of them asks for an index inside the
  loaded questions or is not there to be pressed. So in every session, whatever the events
  and whichever indices they ask for, the current index lies inside the loaded questions
  as soon as there are any, and rendering never throws.
\<close>

theorem navigation_stays_in_range:
  "(length (questions (session_run (mount ex st t0 rs subs) t res pre ins post)) = 0 \<or>
    index_in_range (session_run (mount ex st t0 rs subs) t res pre ins post)) \<and>
   render (session_run (mount ex st t0 rs subs) t res pre ins post) \<noteq> Crashed"
proof -
  have "loaded_in_range (fetchQuestions t res (mount ex st t0 rs subs))"
    by (simp add: loaded_in_range_def index_in_range_def fetchQuestions_def mount_def Let_def
          toast_def console_error_def onComplete_def split: query_result.splits)
  then have "loaded_in_range (run (fetchQuestions t res (mount ex st t0 rs subs)) pre)"
    by (rule run_loaded_in_range)
  then have "loaded_in_range
      (createSubmission ins (run (fetchQuestions t res (mount ex st t0 rs subs)) pre))"
    by (simp add: loaded_in_range_def index_in_range_def createSubmission_frame)
  then have "loaded_in_range (session_run (mount ex st t0 rs subs) t res pre ins post)"
    unfolding session_run_def by (rule run_loaded_in_range)
  then show ?thesis
    by (auto simp: loaded_in_range_def index_in_range_def render_def question_at_def)
qed

theorem navigation_stays_in_range_witness:
  "index_in_range
     (session_run demo_mounted 1000 (Rows demo_questions) [] (Some ''sub1'') demo_clicks) \<and>
   render (session_run demo_mounted 1000 (Rows demo_questions) [] (Some ''sub1'') demo_clicks)
     \<noteq> Crashed"
proof -
  have "questions
      (session_run (mount demo_exam (Some ''st1'') 0 [] []) 1000 (Rows demo_questions) []
         (Some ''sub1'') demo_clicks) \<noteq> []"
    by (simp add: demo_defs handler_defs)
  with navigation_stays_in_range
    [of demo_exam "Some ''st1''" 0 "[]" "[]" 1000 "Rows demo_questions" "[]" "Some ''sub1''"
        demo_clicks]
  show ?thesis
    by (simp add: demo_mounted_def)
qed

text \<open>
  On the sample session: Next three times, a press on a grid button that does not exist,
  and Previous leave the student on the second of three questions.
\<close>

lemma navigation_demo:
  "index_in_range (run demo_active demo_clicks) \<and>
   currentQuestionIndex (run demo_active demo_clicks) = 1 \<and>
   render (run demo_active demo_clicks) = ExamScreen"
  by (simp add: index_in_range_def demo_defs handler_defs)

text \<open>
  Were \<^verbatim>\<open>navigateToQuestion\<close> ever called with an index outside the loaded questions, it
  would store it and the next rendering would throw; no event does so.
\<close>

lemma unguarded_navigation_would_crash:
  "render (navigateToQuestion 0 5 demo_active) = Crashed"
  by (simp add: demo_defs handler_defs)

section \<open>Operations before the submission identity exists\<close>

text \<open>
  C9. The claim asks that every operation invoked before the submission identity exists
  is reported to the user and aborted without a change of state. Selecting an answer and
  marking for review show the toast ``Submission Error'', log the failure and change
  nothing else. Submitting changes nothing else either, but it only logs to the console:
  the user is shown nothing.
\<close>

theorem precondition_failure_changes_no_data:
  assumes "\<not> truthy (submissionId s)"
  shows "handleAnswerSelect t ok option s =
           s\<lparr>toasts := toasts s @ [''Submission Error''],
             console := console s @ [''Attempted to select answer without a submission ID'']\<rparr> \<and>
         markForReview t ok s =
           s\<lparr>toasts := toasts s @ [''Submission Error''],
             console := console s @ [''Attempted to mark for review without a submission ID'']\<rparr> \<and>
         submitExam e a (capture_of s) s =
           s\<lparr>console := console s @ [''No submission ID available'']\<rparr>"
  using assms
  by (cases "submissionId s")
    (simp_all add: handleAnswerSelect_def markForReview_def submitExam_def capture_of_def
      toast_def console_error_def)

theorem precondition_failure_changes_no_data_witness:
  "\<not> truthy (submissionId demo_loaded) \<and>
   toasts (handleAnswerSelect 5000 True ''B'' demo_loaded) = [''Submission Error''] \<and>
   answers (handleAnswerSelect 5000 True ''B'' demo_loaded) = [] \<and>
   toasts (submitExam demo_env False (capture_of demo_loaded) demo_loaded) = []"
proof -
  have h: "\<not> truthy (submissionId demo_loaded)"
    by (simp add: demo_defs)
  have t: "toasts demo_loaded = []" and a: "answers demo_loaded = []"
    by (simp_all add: demo_defs)
  from precondition_failure_changes_no_data [OF h, of 5000 True "''B''" demo_env False] h t a
  show ?thesis by simp
qed

text \<open>
  On the sample session, a press on Submit before the identity exists leaves the list of
  toasts as it was.
\<close>

lemma submit_failure_not_reported_demo:
  "controls_shown demo_loaded \<and> submissionId demo_loaded = None \<and>
   toasts (step demo_loaded (SubmitClick demo_env)) = toasts demo_loaded"
  by (simp add: demo_defs handler_defs)

section \<open>Before the submission identity exists\<close>

text \<open>
  While there is no submission identity and no timeout is pending, no event of the screen
  reaches the database, the answers, the pending flag or the phase.
\<close>

lemma step_without_identity:
  assumes "submissionId s = None" and "timeouts s = []"
  shows "untouched s (step s ev)"
  using assms
  by (cases ev)
    (auto simp: untouched_def fullscreenGranted_def fullscreenchange_def timer_tick_def
      timer_update_def submitExam_def first_render_def capture_of_def handleAnswerSelect_def
      markForReview_def click_previous_def click_next_def click_grid_def navigateToQuestion_def
      toast_def console_error_def Let_def)

lemma untouched_refl: "untouched s s"
  by (simp add: untouched_def)

lemma untouched_trans: "untouched s s' \<Longrightarrow> untouched s' s'' \<Longrightarrow> untouched s s''"
  by (auto simp: untouched_def)

lemma run_without_identity:
  assumes "submissionId s = None" and "timeouts s = []"
  shows "untouched s (run s evs)"
  using assms
proof (induction evs arbitrary: s)
  case Nil
  show ?case by (simp add: run_def untouched_refl)
next
  case (Cons ev evs)
  have u: "untouched s (step s ev)"
    using Cons.prems by (rule step_without_identity)
  then have "submissionId (step s ev) = None" and "timeouts (step s ev) = []"
    using Cons.prems by (simp_all add: untouched_def)
  then have "untouched (step s ev) (run (step s ev) evs)"
    by (rule Cons.IH)
  with u show ?case
    by (simp add: run_def untouched_trans)
qed

lemma fetchQuestions_no_identity:
  "submissionId (fetchQuestions t res (mount ex st t0 rs subs)) = None"
  "timeouts (fetchQuestions t res (mount ex st t0 rs subs)) = []"
  "pendingAutoSubmit (fetchQuestions t res (mount ex st t0 rs subs)) = False"
  by (simp_all add: fetchQuestions_def mount_def Let_def toast_def console_error_def
        onComplete_def split: query_result.splits)

section \<open>Violation before the submission identity exists\<close>

text \<open>
  C5. The claim asks that a full-screen exit seen before the submission identity exists
  is queued and replayed. In the code the listeners are registered only once the identity
  exists, so whatever happens before: when the insert returns, no auto-submit is scheduled
  and the pending flag is false.
\<close>

theorem early_violation_is_dropped:
  "timeouts (createSubmission ins (run (fetchQuestions t res (mount ex st t0 rs subs)) pre)) = [] \<and>
   pendingAutoSubmit (createSubmission ins (run (fetchQuestions t res (mount ex st t0 rs subs)) pre))
     = False"
proof -
  let ?s0 = "fetchQuestions t res (mount ex st t0 rs subs)"
  have "untouched ?s0 (run ?s0 pre)"
    by (rule run_without_identity) (simp_all add: fetchQuestions_no_identity)
  then have "timeouts (run ?s0 pre) = []" and "pendingAutoSubmit (run ?s0 pre) = False"
    by (simp_all add: untouched_def fetchQuestions_no_identity)
  then show ?thesis
    by (simp add: createSubmission_def setSubmissionId_def Let_def toast_def console_error_def
          split: option.splits)
qed

text \<open>
  The same on the sample session: the student is in full screen, leaves it before the
  insert returns, and the session then holds neither a toast about the exit nor a
  scheduled submit; a later timeout event finds nothing to run.
\<close>

lemma early_violation_demo:
  "isFullscreenRef (run demo_loaded demo_early_exit) \<and>
   \<not> docFullscreen (run demo_loaded demo_early_exit) \<and>
   toasts (createSubmission (Some ''sub1'') (run demo_loaded demo_early_exit)) = [''Exam Started''] \<and>
   finalize_count
     (run (createSubmission (Some ''sub1'') (run demo_loaded demo_early_exit))
        [TimeoutFires demo_env]) = 0"
  by (simp add: finalize_count_def demo_early_exit_def demo_defs handler_defs)

lemma no_questions_loaded:
  assumes "1000 \<le> endTime ex - t" and "res = NoData \<or> res = Rows []"
  shows "questions (fetchQuestions t res (mount ex st t0 rs subs)) = []"
    and "currentPhase (fetchQuestions t res (mount ex st t0 rs subs)) = examPhase"
    and "calls (fetchQuestions t res (mount ex st t0 rs subs)) = []"
    and "''No Questions Found'' \<in> set (toasts (fetchQuestions t res (mount ex st t0 rs subs)))"
proof -
  from assms(1) have pos: "\<not> (endTime ex - t) div 1000 \<le> 0"
    by (simp add: pos_imp_zdiv_pos_iff)
  from assms(2) consider "res = NoData" | "res = Rows []"
    by blast
  then show "questions (fetchQuestions t res (mount ex st t0 rs subs)) = []"
    and "currentPhase (fetchQuestions t res (mount ex st t0 rs subs)) = examPhase"
    and "calls (fetchQuestions t res (mount ex st t0 rs subs)) = []"
    and "''No Questions Found'' \<in> set (toasts (fetchQuestions t res (mount ex st t0 rs subs)))"
    using pos by (cases; simp add: fetchQuestions_def mount_def Let_def toast_def max_def)+
qed

section \<open>An exam without questions\<close>

text \<open>
  C6. The claim asks that a session whose question source returns nothing is reported and
  handed back. The code reports it and stops there: whatever happens afterwards, the
  session stays in the exam phase on the loading line, without a submission identity and
  without a single request to the database.
\<close>

theorem no_questions_stays_loading:
  assumes "1000 \<le> endTime ex - t" and "res = NoData \<or> res = Rows []"
  shows "currentPhase (session_run (mount ex st t0 rs subs) t res pre ins post) = examPhase \<and>
         render (session_run (mount ex st t0 rs subs) t res pre ins post) = Loading \<and>
         submissionId (session_run (mount ex st t0 rs subs) t res pre ins post) = None \<and>
         calls (session_run (mount ex st t0 rs subs) t res pre ins post) = [] \<and>
         ''No Questions Found'' \<in> set (toasts (session_run (mount ex st t0 rs subs) t res pre ins post))"
proof -
  define s0 where "s0 = fetchQuestions t res (mount ex st t0 rs subs)"
  define s1 where "s1 = run s0 pre"
  define s3 where "s3 = run s1 post"
  have s0: "questions s0 = []" "currentPhase s0 = examPhase" "calls s0 = []"
    "''No Questions Found'' \<in> set (toasts s0)"
    unfolding s0_def by (rule no_questions_loaded [OF assms])+
  have id0: "submissionId s0 = None" "timeouts s0 = []"
    unfolding s0_def by (rule fetchQuestions_no_identity)+
  have u1: "untouched s0 s1"
    unfolding s1_def using id0 by (rule run_without_identity)
  then have q1: "questions s1 = []" and id1: "submissionId s1 = None" "timeouts s1 = []"
    using s0 id0 by (simp_all add: untouched_def)
  from q1 have same: "createSubmission ins s1 = s1"
    by (simp add: createSubmission_def split: option.splits)
  have "untouched s1 s3"
    unfolding s3_def using id1 by (rule run_without_identity)
  with u1 have u3: "untouched s0 s3"
    by (rule untouched_trans)
  have run: "session_run (mount ex st t0 rs subs) t res pre ins post = s3"
    by (simp add: session_run_def s3_def same s1_def [symmetric] s0_def [symmetric])
  from u3 have "currentPhase s3 = examPhase" "questions s3 = []" "submissionId s3 = None"
    "calls s3 = []" "''No Questions Found'' \<in> set (toasts s3)"
    using s0 id0 by (auto simp: untouched_def)
  then show ?thesis
    unfolding run by (simp add: render_def)
qed

theorem no_questions_stays_loading_witness:
  "currentPhase (session_run demo_mounted 1000 (Rows []) demo_early_exit (Some ''sub1'')
      [Tick demo_env, SubmitClick demo_env]) = examPhase \<and>
   render (session_run demo_mounted 1000 (Rows []) demo_early_exit (Some ''sub1'')
      [Tick demo_env, SubmitClick demo_env]) = Loading"
  using no_questions_stays_loading
    [of demo_exam 1000 "Rows []" "Some ''st1''" 0 "[]" "[]" demo_early_exit "Some ''sub1''"
        "[Tick demo_env, SubmitClick demo_env]"]
  by (simp add: demo_mounted_def demo_exam_def examData_def)

text \<open>The sibling path: an exam that has already ended is reported and handed back.\<close>

lemma ended_exam_is_handed_back:
  assumes "endTime ex - t < 1000"
  shows "currentPhase (fetchQuestions t res (mount ex st t0 rs subs)) = completed"
proof -
  from assms have "\<not> 0 < (endTime ex - t) div 1000"
    by (simp add: pos_imp_zdiv_pos_iff)
  then show ?thesis
    by (simp add: fetchQuestions_def mount_def Let_def toast_def onComplete_def max_def)
qed

section \<open>Registration with a known roll number\<close>

lemma trim_demo_form:
  "trim (name demo_form) \<noteq> []" "trim (email demo_form) \<noteq> []"
  "trim (rollNumber demo_form) \<noteq> []" "64 \<in> set (email demo_form)"
  by (simp_all add: demo_form_def codes_def trim_def is_space_def)

text \<open>
  C10 (as amended). When the form passes validation and exactly one stored student has the
  roll number of the form, the students table is left as it is (the name and the email of
  the form are written nowhere), the stored identity is the one used in the check for an
  earlier submission, and the student handed to the exam carries that identity together
  with the name and the email of the form.
\<close>

theorem existing_student_is_reused:
  assumes "trim (name f) \<noteq> []" and "trim (email f) \<noteq> []" and "trim (rollNumber f) \<noteq> []"
    and "64 \<in> set (email f)"
    and "students_ok env"
    and "filter (\<lambda>r. roll_number r = rollNumber f) studs = [existing]"
  shows "snd (handleSubmit env f ex studs subs) = studs \<and>
         fst (handleSubmit env f ex studs subs) =
           (if \<not> submissions_ok env then RegistrationFailed
            else case maybeSingle
                        (filter (\<lambda>r. student_id (snd r) = id_row existing \<and>
                                      exam_id (snd r) = id_exam ex) subs) of
                   ManyRows \<Rightarrow> RegistrationFailed
                 | OneRow existingSubmission \<Rightarrow> AlreadySubmitted
                 | NoRow \<Rightarrow>
                     Registered \<lparr>id_student = Some (id_row existing), name_student = name f,
                                 email_student = email f, rollNumber_student = rollNumber f\<rparr>)"
  using assms by (simp add: handleSubmit_def check_submission_def)

theorem existing_student_is_reused_witness:
  "handleSubmit demo_reg_env demo_form demo_exam demo_students (submissions demo_active) =
     (AlreadySubmitted, demo_students) \<and>
   fst (handleSubmit demo_reg_env demo_form demo_exam demo_students []) =
     Registered \<lparr>id_student = Some ''st1'', name_student = codes ''Ada B'',
                 email_student = codes ''ada@example.org'', rollNumber_student = codes ''R7''\<rparr>"
proof -
  have e: "students_ok demo_reg_env"
    by (simp add: demo_reg_env_def)
  have r: "filter (\<lambda>r. roll_number r = rollNumber demo_form) demo_students = [hd demo_students]"
    by (simp add: demo_form_def demo_students_def codes_def)
  have a: "submissions demo_active =
      [(''sub1'', \<lparr>student_id = ''st1'', exam_id = ''e1'', total_questions = 3, total_score = 0,
         time_taken_minutes = 0, submitted_at = None\<rparr>)]"
    by (simp add: demo_defs)
  from existing_student_is_reused [OF trim_demo_form e r, of demo_exam "submissions demo_active"]
    existing_student_is_reused [OF trim_demo_form e r, of demo_exam "[]"] a
  show ?thesis
    by (simp add: prod_eq_iff demo_students_def demo_reg_env_def demo_exam_def examData_def
          demo_form_def)
qed

text \<open>
  C10 fails as stated in that the name and the email of the form are not discarded: for the
  stored student ``Ada Byron'' with the email \<open>old@example.org\<close>, the student handed to the
  exam bears the name ``Ada B'' and the email \<open>ada@example.org\<close> of the form.
\<close>

theorem form_name_is_kept_counterexample:
  "name_row (hd demo_students) = codes ''Ada Byron'' \<and>
   email_row (hd demo_students) = codes ''old@example.org'' \<and>
   fst (handleSubmit demo_reg_env demo_form demo_exam demo_students []) =
     Registered \<lparr>id_student = Some ''st1'', name_student = codes ''Ada B'',
                 email_student = codes ''ada@example.org'', rollNumber_student = codes ''R7''\<rparr>"
  using trim_demo_form
  by (simp add: handleSubmit_def check_submission_def demo_students_def demo_reg_env_def
        demo_form_def codes_def)

text \<open>A name of one no-break space does not pass validation: no request is made.\<close>

lemma blank_name_is_incomplete:
  "handleSubmit env (f\<lparr>name := [160]\<rparr>) ex studs subs = (Incomplete, studs)"
  by (simp add: handleSubmit_def trim_def is_space_def)

section \<open>Durable answers\<close>


lemma has_iff: "has m k \<longleftrightarrow> k \<in> fst ` set m"
  by (simp add: has_def map_of_eq_None_iff)

lemma sweep_rows_Nil [simp]: "sweep_rows sid ok [] rs = rs"
  by (simp add: sweep_rows_def)

lemma sweep_rows_Cons [simp]:
  "sweep_rows sid ok (q # qs) rs =
     sweep_rows sid ok qs
       (if ok (id_question q) then AList.update (sid, id_question q) (sweep_row q) rs else rs)"
  by (simp add: sweep_rows_def)

lemma keys_sweep_rows:
  "fst ` set (sweep_rows sid ok qs rs) =
     fst ` set rs \<union> (\<lambda>q. (sid, id_question q)) ` {q \<in> set qs. ok (id_question q)}"
proof (induction qs arbitrary: rs)
  case Nil
  show ?case by simp
next
  case (Cons q qs)
  show ?case
    by (cases "ok (id_question q)") (auto simp: Cons.IH dom_update)
qed

lemma distinct_sweep_rows:
  "distinct (map fst rs) \<Longrightarrow> distinct (map fst (sweep_rows sid ok qs rs))"
  by (induction qs arbitrary: rs) (simp_all add: distinct_update)

lemma map_of_sweep_rows_other:
  "i \<notin> id_question ` set qs \<Longrightarrow> map_of (sweep_rows sid ok qs rs) (sid, i) = map_of rs (sid, i)"
  by (induction qs arbitrary: rs) (auto simp: update_conv')

lemma map_of_sweep_rows:
  assumes "distinct (map id_question qs)" and "q \<in> set qs" and "ok (id_question q)"
  shows "map_of (sweep_rows sid ok qs rs) (sid, id_question q) = Some (sweep_row q)"
  using assms
proof (induction qs arbitrary: rs)
  case Nil
  then show ?case by simp
next
  case (Cons x qs)
  show ?case
  proof (cases "q = x")
    case True
    with Cons.prems show ?thesis
      by (simp add: map_of_sweep_rows_other update_conv')
  next
    case False
    with Cons.prems have "q \<in> set qs" and "distinct (map id_question qs)"
      by simp_all
    then show ?thesis
      using Cons.prems(3) by (simp add: Cons.IH)
  qed
qed

lemma submitExam_responses:
  assumes "cap_submissionId c = Some sid" and "sid \<noteq> []"
  shows "responses (submitExam e a c s) =
           sweep_rows sid (sweep_ok e) (unansweredQuestions c) (responses s)"
  using assms
  by (simp add: submitExam_def Let_def sweep_fold sweep_rows_def toast_def console_error_def
        onComplete_def)

lemma submitExam_responses_none:
  "\<not> truthy (cap_submissionId c) \<Longrightarrow> responses (submitExam e a c s) = responses s"
  by (cases "cap_submissionId c") (simp_all add: submitExam_def console_error_def)

lemma question_at_in: "question_at qs i = Some q \<Longrightarrow> q \<in> set qs"
  by (auto simp: question_at_def split: if_splits)

lemma unanswered_subset: "set (unansweredQuestions c) \<subseteq> set (cap_questions c)"
  by (auto simp: unansweredQuestions_def)

lemma durable_submitExam:
  assumes inv: "answers_durable sid qs s"
    and c: "c = capture_of s \<or> c = initial_capture sid qs"
  shows "answers_durable sid qs (submitExam e a c s)"
proof -
  from inv c have sid: "cap_submissionId c = Some sid" "sid \<noteq> []" and qs: "cap_questions c = qs"
    by (auto simp: answers_durable_def capture_of_def initial_capture_def)
  have r: "responses (submitExam e a c s) =
      sweep_rows sid (sweep_ok e) (unansweredQuestions c) (responses s)"
    using sid by (rule submitExam_responses)
  have sub: "set (unansweredQuestions c) \<subseteq> set qs"
    using unanswered_subset [of c] qs by simp
  from inv have d: "distinct (map fst (responses s))"
    by (simp add: answers_durable_def)
  have k: "fst ` set (responses (submitExam e a c s)) =
      fst ` set (responses s) \<union>
      (\<lambda>q. (sid, id_question q)) ` {q \<in> set (unansweredQuestions c). sweep_ok e (id_question q)}"
    by (simp add: r keys_sweep_rows)
  have b: "\<forall>k \<in> fst ` set (responses (submitExam e a c s)).
      fst k = sid \<longrightarrow> snd k \<in> id_question ` set qs"
    using inv sub unfolding k answers_durable_def by auto
  have cc: "\<forall>q \<in> fst ` set (answers s). (sid, q) \<in> fst ` set (responses (submitExam e a c s))"
    using inv unfolding k answers_durable_def by auto
  from inv b cc d show ?thesis
    by (simp add: answers_durable_def submitExam_frame r distinct_sweep_rows)
qed

lemma durable_saveAnswer:
  assumes inv: "answers_durable sid qs s" and q: "q \<in> set qs"
  shows "answers_durable sid qs (saveAnswer t True (id_question q) sel st s)"
proof -
  from inv have sid: "submissionId s = Some sid" "sid \<noteq> []"
    by (simp_all add: answers_durable_def)
  obtain row where
    a: "answers (saveAnswer t True (id_question q) sel st s) =
          AList.update (id_question q)
            \<lparr>questionId = id_question q, selectedAnswer = sel, status = st,
             timeSpent = t - questionStartTime s\<rparr> (answers s)"
    and r: "responses (saveAnswer t True (id_question q) sel st s) =
          AList.update (sid, id_question q) row (responses s)"
    using sid by (simp add: saveAnswer_def Let_def)
  have ka: "fst ` set (answers (saveAnswer t True (id_question q) sel st s)) =
      {id_question q} \<union> fst ` set (answers s)"
    by (simp only: a dom_update)
  have kr: "fst ` set (responses (saveAnswer t True (id_question q) sel st s)) =
      {(sid, id_question q)} \<union> fst ` set (responses s)"
    by (simp only: r dom_update)
  have d: "distinct (map fst (responses (saveAnswer t True (id_question q) sel st s)))"
    using inv by (simp add: r distinct_update answers_durable_def)
  have b: "\<forall>k \<in> fst ` set (responses (saveAnswer t True (id_question q) sel st s)).
      fst k = sid \<longrightarrow> snd k \<in> id_question ` set qs"
    using inv q unfolding kr answers_durable_def by auto
  have cc: "\<forall>i \<in> fst ` set (answers (saveAnswer t True (id_question q) sel st s)).
      (sid, i) \<in> fst ` set (responses (saveAnswer t True (id_question q) sel st s))"
    using inv unfolding ka kr answers_durable_def by auto
  from inv b cc d show ?thesis
    by (simp add: answers_durable_def saveAnswer_frame)
qed

lemma durable_frame:
  assumes "answers_durable sid qs s"
    and "questions s' = questions s" and "submissionId s' = submissionId s"
    and "responses s' = responses s" and "answers s' = answers s"
    and "fullscreenCapture s' = fullscreenCapture s" and "set (timeouts s') \<subseteq> set (timeouts s) \<union> {fullscreenCapture s}"
  shows "answers_durable sid qs s'"
  using assms by (auto simp: answers_durable_def)

lemma durable_step:
  assumes inv: "answers_durable sid qs s" and ok: "answer_saved ev"
  shows "answers_durable sid qs (step s ev)"
proof (cases ev)
  case FullscreenGranted
  with inv show ?thesis
    by (auto intro!: durable_frame [OF inv] simp: fullscreenGranted_def toast_def)
next
  case (FullscreenChange b)
  show ?thesis
    unfolding FullscreenChange
    by (rule durable_frame [OF inv])
      (auto simp: fullscreenchange_def handleFullscreenChange_def Let_def toast_def)
next
  case (Tick e)
  have "\<not> truthy (cap_submissionId first_render)"
    by (simp add: first_render_def)
  then show ?thesis
    unfolding Tick
    by (intro durable_frame [OF inv])
      (auto simp: timer_tick_def submitExam_frame submitExam_responses_none split: prod.splits)
next
  case (TimeoutFires e)
  show ?thesis
  proof (cases "timeouts s")
    case Nil
    with inv show ?thesis by (simp add: TimeoutFires)
  next
    case (Cons c cs)
    with inv have c: "c = initial_capture sid qs"
      by (simp add: answers_durable_def)
    have "answers_durable sid qs (s\<lparr>timeouts := cs\<rparr>)"
      by (rule durable_frame [OF inv]) (auto simp: Cons)
    then have "answers_durable sid qs (submitExam e True c (s\<lparr>timeouts := cs\<rparr>))"
      using c by (intro durable_submitExam) simp_all
    then show ?thesis
      by (simp add: TimeoutFires Cons)
  qed
next
  case (SelectOption t okf option)
  with ok have okf: "okf = True" by simp
  from inv have tr: "truthy (submissionId s)"
    by (simp add: answers_durable_def)
  show ?thesis
  proof (cases "question_at (questions s) (currentQuestionIndex s)")
    case None
    with inv tr show ?thesis
      by (simp add: SelectOption handleAnswerSelect_def)
  next
    case (Some q)
    then have "q \<in> set qs"
      using inv question_at_in [of "questions s" _ q] by (simp add: answers_durable_def)
    with inv have "answers_durable sid qs (saveAnswer t True (id_question q) option answered s)"
      by (rule durable_saveAnswer)
    with inv tr Some show ?thesis
      by (simp add: SelectOption okf handleAnswerSelect_def)
  qed
next
  case (MarkClick t okf)
  with ok have okf: "okf = True" by simp
  from inv have tr: "truthy (submissionId s)"
    by (simp add: answers_durable_def)
  show ?thesis
  proof (cases "question_at (questions s) (currentQuestionIndex s)")
    case None
    with inv tr show ?thesis
      by (simp add: MarkClick markForReview_def)
  next
    case (Some q)
    then have "q \<in> set qs"
      using inv question_at_in [of "questions s" _ q] by (simp add: answers_durable_def)
    with inv have "\<And>sel. answers_durable sid qs
        (saveAnswer t True (id_question q) sel marked_for_review s)"
      by (rule durable_saveAnswer)
    with inv tr Some show ?thesis
      by (simp add: MarkClick okf markForReview_def)
  qed
next
  case (PreviousClick t)
  show ?thesis
    unfolding PreviousClick
    by (rule durable_frame [OF inv]) (auto simp: click_previous_def navigateToQuestion_def)
next
  case (NextClick t)
  show ?thesis
    unfolding NextClick
    by (rule durable_frame [OF inv]) (auto simp: click_next_def navigateToQuestion_def)
next
  case (GridClick t i)
  show ?thesis
    unfolding GridClick
    by (rule durable_frame [OF inv]) (auto simp: click_grid_def navigateToQuestion_def)
next
  case (SubmitClick e)
  have "answers_durable sid qs (submitExam e False (capture_of s) s)"
    using inv by (rule durable_submitExam) simp
  with inv show ?thesis
    by (simp add: SubmitClick)
qed

lemma durable_run:
  assumes "answers_durable sid qs s" and "list_all answer_saved evs"
  shows "answers_durable sid qs (run s evs)"
  using assms unfolding run_def
  by (induction evs arbitrary: s) (simp_all add: durable_step)

lemma step_submissionId: "submissionId (step s ev) = submissionId s"
  by (cases ev)
    (auto simp: fullscreenGranted_def fullscreenchange_def handleFullscreenChange_def
      timer_tick_def submitExam_frame saveAnswer_frame handleAnswerSelect_def markForReview_def
      click_previous_def click_next_def click_grid_def navigateToQuestion_def toast_def
      console_error_def Let_def split: option.splits list.splits prod.splits)

lemma run_submissionId: "submissionId (run s evs) = submissionId s"
  unfolding run_def by (induction evs arbitrary: s) (simp_all add: step_submissionId)

lemma fetchQuestions_fresh:
  "answers (fetchQuestions t res (mount ex st t0 rs subs)) = []"
  "responses (fetchQuestions t res (mount ex st t0 rs subs)) = rs"
  by (simp_all add: fetchQuestions_def mount_def Let_def toast_def console_error_def
        onComplete_def split: query_result.splits)

lemma fetchQuestions_questions:
  "questions (fetchQuestions t (Rows qs) (mount ex st t0 rs subs)) = [] \<or>
   questions (fetchQuestions t (Rows qs) (mount ex st t0 rs subs)) = qs"
  by (simp add: fetchQuestions_def mount_def Let_def toast_def onComplete_def)

lemma setSubmissionId_identity: "submissionId (setSubmissionId sid s) = Some sid"
  by (simp add: setSubmissionId_def Let_def)

lemma createSubmission_identity:
  assumes none: "submissionId s = None"
    and got: "submissionId (createSubmission ins s) = Some sid"
  shows "questions s \<noteq> []"
    and "createSubmission ins s =
           setSubmissionId sid
             (s\<lparr>calls := calls s @
                   [InsertSubmission (the (student_ident s)) (id_exam (exam s)) (length (questions s))],
                submissions := AList.update sid
                   \<lparr>student_id = the (student_ident s), exam_id = id_exam (exam s),
                    total_questions = length (questions s), total_score = 0,
                    time_taken_minutes = 0, submitted_at = None\<rparr>
                   (submissions s)\<rparr>)"
proof -
  obtain st where st: "student_ident s = Some st"
    using none got by (cases "student_ident s") (simp_all add: createSubmission_def)
  have guard: "\<not> (st = [] \<or> length (questions s) = 0)"
  proof
    assume "st = [] \<or> length (questions s) = 0"
    then have "createSubmission ins s = s"
      by (simp add: createSubmission_def st)
    with none got show False by simp
  qed
  obtain sid' where ins: "ins = Some sid'"
    using none got guard
    by (cases ins) (simp_all add: createSubmission_def st Let_def toast_def console_error_def)
  have eq: "createSubmission ins s =
      setSubmissionId sid'
        (s\<lparr>calls := calls s @ [InsertSubmission st (id_exam (exam s)) (length (questions s))],
           submissions := AList.update sid'
             \<lparr>student_id = st, exam_id = id_exam (exam s),
              total_questions = length (questions s), total_score = 0,
              time_taken_minutes = 0, submitted_at = None\<rparr>
             (submissions s)\<rparr>)"
    using guard by (simp add: createSubmission_def st ins Let_def)
  with got have "sid' = sid"
    by (simp add: setSubmissionId_identity)
  with eq st show "createSubmission ins s =
           setSubmissionId sid
             (s\<lparr>calls := calls s @
                   [InsertSubmission (the (student_ident s)) (id_exam (exam s)) (length (questions s))],
                submissions := AList.update sid
                   \<lparr>student_id = the (student_ident s), exam_id = id_exam (exam s),
                    total_questions = length (questions s), total_score = 0,
                    time_taken_minutes = 0, submitted_at = None\<rparr>
                   (submissions s)\<rparr>)"
    by simp
  from guard show "questions s \<noteq> []"
    by simp
qed

lemma durable_after_creation:
  assumes d: "distinct (map fst rs)" and fresh: "sid \<notin> fst ` fst ` set rs" and ne: "sid \<noteq> []"
    and got: "submissionId
        (createSubmission ins (run (fetchQuestions t (Rows qs) (mount ex st t0 rs subs)) pre))
        = Some sid"
  shows "answers_durable sid qs
        (createSubmission ins (run (fetchQuestions t (Rows qs) (mount ex st t0 rs subs)) pre))"
proof -
  define s0 where "s0 = fetchQuestions t (Rows qs) (mount ex st t0 rs subs)"
  define s1 where "s1 = run s0 pre"
  have id0: "submissionId s0 = None" "timeouts s0 = []" "pendingAutoSubmit s0 = False"
    unfolding s0_def by (rule fetchQuestions_no_identity)+
  have f0: "answers s0 = []" "responses s0 = rs"
    unfolding s0_def by (rule fetchQuestions_fresh)+
  have q0: "questions s0 = [] \<or> questions s0 = qs"
    unfolding s0_def by (rule fetchQuestions_questions)
  have "untouched s0 s1"
    unfolding s1_def using id0(1,2) by (rule run_without_identity)
  then have s1: "submissionId s1 = None" "timeouts s1 = []" "pendingAutoSubmit s1 = False"
    "answers s1 = []" "responses s1 = rs" "questions s1 = questions s0"
    using id0 f0 by (simp_all add: untouched_def)
  from got have got1: "submissionId (createSubmission ins s1) = Some sid"
    by (simp add: s1_def s0_def)
  from createSubmission_identity [OF s1(1) got1] q0 s1(6)
  have q1: "questions s1 = qs" and eq: "createSubmission ins s1 =
      setSubmissionId sid
        (s1\<lparr>calls := calls s1 @
              [InsertSubmission (the (student_ident s1)) (id_exam (exam s1)) (length (questions s1))],
            submissions := AList.update sid
              \<lparr>student_id = the (student_ident s1), exam_id = id_exam (exam s1),
               total_questions = length (questions s1), total_score = 0,
               time_taken_minutes = 0, submitted_at = None\<rparr>
              (submissions s1)\<rparr>)"
    by auto
  from fresh have fr: "\<forall>k\<in>fst ` set rs. fst k \<noteq> sid"
    by auto
  have "answers_durable sid qs (createSubmission ins s1)"
    unfolding eq using s1 q1 d ne fr
    by (simp add: answers_durable_def setSubmissionId_def Let_def capture_of_def
          initial_capture_def)
  then show ?thesis
    by (simp add: s1_def s0_def)
qed

lemma durable_count_after_sweep:
  assumes inv: "answers_durable sid qs s"
    and c: "c = capture_of s \<or> c = initial_capture sid qs"
    and dq: "distinct (map id_question qs)"
    and ok: "sweep_ok e = (\<lambda>q. True)"
  shows "durable_count sid (submitExam e a c s) = length qs"
proof -
  from inv c have sid: "cap_submissionId c = Some sid" "sid \<noteq> []" and qs: "cap_questions c = qs"
    by (auto simp: answers_durable_def capture_of_def initial_capture_def)
  have r: "responses (submitExam e a c s) =
      sweep_rows sid (\<lambda>q. True) (unansweredQuestions c) (responses s)"
    using submitExam_responses [OF sid] ok by simp
  have k: "fst ` set (responses (submitExam e a c s)) =
      fst ` set (responses s) \<union> (\<lambda>q. (sid, id_question q)) ` set (unansweredQuestions c)"
    by (simp add: r keys_sweep_rows)
  from inv have d: "distinct (map fst (responses (submitExam e a c s)))"
    by (simp add: r distinct_sweep_rows answers_durable_def)
  have answered: "(sid, id_question q) \<in> fst ` set (responses s)"
    if "q \<in> set qs" and "q \<notin> set (unansweredQuestions c)" for q
  proof -
    from that qs have h: "has (cap_answers c) (id_question q)"
      by (simp add: unansweredQuestions_def)
    from c show ?thesis
    proof
      assume "c = capture_of s"
      with h have "id_question q \<in> fst ` set (answers s)"
        by (simp add: has_iff capture_of_def)
      with inv show ?thesis
        unfolding answers_durable_def by blast
    next
      assume "c = initial_capture sid qs"
      with h show ?thesis
        by (simp add: has_def initial_capture_def)
    qed
  qed
  have sub: "set (unansweredQuestions c) \<subseteq> set qs"
    using unanswered_subset [of c] qs by simp
  have "{k \<in> fst ` set (responses (submitExam e a c s)). fst k = sid} =
      Pair sid ` id_question ` set qs"
  proof (intro equalityI subsetI)
    fix k
    assume "k \<in> {k \<in> fst ` set (responses (submitExam e a c s)). fst k = sid}"
    then have kk: "k \<in> fst ` set (responses s) \<or>
        k \<in> (\<lambda>q. (sid, id_question q)) ` set (unansweredQuestions c)" and f: "fst k = sid"
      unfolding k by auto
    from kk show "k \<in> Pair sid ` id_question ` set qs"
    proof
      assume "k \<in> fst ` set (responses s)"
      with inv f have "snd k \<in> id_question ` set qs"
        unfolding answers_durable_def by blast
      with f show ?thesis
        by (cases k) auto
    next
      assume "k \<in> (\<lambda>q. (sid, id_question q)) ` set (unansweredQuestions c)"
      with sub show ?thesis by auto
    qed
  next
    fix k
    assume "k \<in> Pair sid ` id_question ` set qs"
    then obtain q where q: "q \<in> set qs" and kq: "k = (sid, id_question q)"
      by auto
    show "k \<in> {k \<in> fst ` set (responses (submitExam e a c s)). fst k = sid}"
    proof (cases "q \<in> set (unansweredQuestions c)")
      case True
      then show ?thesis unfolding k kq by auto
    next
      case False
      with q have "(sid, id_question q) \<in> fst ` set (responses s)"
        by (rule answered)
      then show ?thesis unfolding k kq by simp
    qed
  qed
  then have "set (filter (\<lambda>k. fst k = sid) (map fst (responses (submitExam e a c s)))) =
      Pair sid ` id_question ` set qs"
    by auto
  moreover have "distinct (filter (\<lambda>k. fst k = sid) (map fst (responses (submitExam e a c s))))"
    using d by (rule distinct_filter)
  ultimately have "durable_count sid (submitExam e a c s) = card (Pair sid ` id_question ` set qs)"
    unfolding durable_count_def by (metis distinct_card)
  also have "\<dots> = card (id_question ` set qs)"
    by (rule card_image) (simp add: inj_on_def)
  also have "\<dots> = length qs"
    using distinct_card [OF dq] by simp
  finally show ?thesis .
qed


text \<open>
  C4 (as amended). When every upsert of an answer issued during the session succeeded and
  the upserts of the sweep succeed, the sweep leaves exactly one answer row per loaded
  question, whichever trigger runs it, and every loaded question without an answer record
  has the sentinel row: selection \<open>n\<close>, not correct, zero seconds. The question
  identities are distinct and the submission identity is new to the table.
\<close>

theorem sweep_completes_durable_answers:
  assumes ids: "distinct (map id_question qs)"
    and rows: "distinct (map fst rs)" and fresh: "sid \<notin> fst ` fst ` set rs" and ne: "sid \<noteq> []"
    and saved: "list_all answer_saved post"
    and s: "s = session_run (mount ex st t0 rs subs) t (Rows qs) pre ins post"
    and got: "submissionId s = Some sid"
    and ok: "sweep_ok e = (\<lambda>q. True)"
    and c: "c = capture_of s \<or> c = fullscreenCapture s"
  shows "durable_count sid (submitExam e a c s) = length qs \<and>
         (\<forall>q \<in> set qs. \<not> has (answers s) (id_question q) \<longrightarrow>
            map_of (responses (submitExam e a c s)) (sid, id_question q) =
              Some \<lparr>selected_answer = ''n'', correct_answer = toLowerCase (correctAnswer q),
                    is_correct = False, time_taken_seconds = 0\<rparr>)"
proof -
  define s2 where "s2 = createSubmission ins (run (fetchQuestions t (Rows qs) (mount ex st t0 rs subs)) pre)"
  have run: "s = run s2 post"
    by (simp add: s session_run_def s2_def)
  from got have "submissionId s2 = Some sid"
    by (simp add: run run_submissionId)
  then have "answers_durable sid qs s2"
    unfolding s2_def by (rule durable_after_creation [OF rows fresh ne])
  then have inv: "answers_durable sid qs s"
    unfolding run using saved by (rule durable_run)
  then have fc: "fullscreenCapture s = initial_capture sid qs"
    by (simp add: answers_durable_def)
  from c fc have c': "c = capture_of s \<or> c = initial_capture sid qs"
    by simp
  have count: "durable_count sid (submitExam e a c s) = length qs"
    using inv c' ids ok by (rule durable_count_after_sweep)
  from inv c' have sid: "cap_submissionId c = Some sid" and qs: "cap_questions c = qs"
    by (auto simp: answers_durable_def capture_of_def initial_capture_def)
  have r: "responses (submitExam e a c s) =
      sweep_rows sid (\<lambda>q. True) (unansweredQuestions c) (responses s)"
    using submitExam_responses [OF sid ne] ok by simp
  have du: "distinct (map id_question (unansweredQuestions c))"
    using ids qs by (simp add: unansweredQuestions_def distinct_map_filter)
  have swept: "q \<in> set (unansweredQuestions c)"
    if "q \<in> set qs" and "\<not> has (answers s) (id_question q)" for q
    using c'
  proof
    assume "c = capture_of s"
    with that inv show ?thesis
      by (simp add: unansweredQuestions_def capture_of_def answers_durable_def)
  next
    assume "c = initial_capture sid qs"
    with that show ?thesis
      by (simp add: unansweredQuestions_def initial_capture_def has_def)
  qed
  have "map_of (responses (submitExam e a c s)) (sid, id_question q) = Some (sweep_row q)"
    if "q \<in> set qs" and "\<not> has (answers s) (id_question q)" for q
    unfolding r using du swept [OF that] by (rule map_of_sweep_rows) simp
  with count show ?thesis
    by (simp add: sweep_row_def)
qed

lemma demo_session_identity: "submissionId demo_session = Some ''sub1''"
  by (simp add: demo_session_def demo_early_exit_def demo_answering_def demo_defs handler_defs)

theorem sweep_completes_durable_answers_witness:
  "durable_count ''sub1'' (submitExam demo_env False (capture_of demo_session) demo_session) = 3 \<and>
   map_of (responses (submitExam demo_env False (capture_of demo_session) demo_session))
     (''sub1'', ''q3'') =
     Some \<lparr>selected_answer = ''n'', correct_answer = ''c'', is_correct = False,
           time_taken_seconds = 0\<rparr>"
proof -
  have ids: "distinct (map id_question demo_questions)"
    by (simp add: demo_questions_def demo_question_def)
  have saved: "list_all answer_saved demo_answering"
    by (simp add: demo_answering_def)
  have s: "demo_session =
      session_run (mount demo_exam (Some ''st1'') 0 [] []) 1000 (Rows demo_questions)
        demo_early_exit (Some ''sub1'') demo_answering"
    by (simp add: demo_session_def demo_mounted_def)
  have ok: "sweep_ok demo_env = (\<lambda>q. True)"
    by (simp add: demo_env_def)
  have un: "demo_question ''q3'' ''C'' 3 \<in> set demo_questions"
    "\<not> has (answers demo_session) (id_question (demo_question ''q3'' ''C'' 3))"
    by (simp_all add: demo_session_def demo_early_exit_def demo_answering_def demo_defs
          handler_defs)
  from sweep_completes_durable_answers
    [OF ids _ _ _ saved s demo_session_identity ok, of "capture_of demo_session" False] un
  show ?thesis
    by (auto simp: demo_questions_def demo_question_def)
qed

text \<open>
  C4 fails as stated: the upsert of the first answer fails and is only logged, the answer
  stays in the map, the sweep skips its question, and two rows stand for three questions.
\<close>

theorem lost_upsert_counterexample:
  "length (questions (run demo_active demo_lost_write)) = 3 \<and>
   durable_count ''sub1'' (run demo_active demo_lost_write) = 2"
  by (simp add: demo_lost_write_def demo_defs handler_defs durable_count_def)

end
